theory Spec2Isabelle
  imports Complex_Main
begin

section \<open>Data model (main.go, lines 20-56 and 116-133)\<close>

text \<open>
  \<^verbatim>\<open>decimal.Decimal\<close> is an exact decimal number; \<^verbatim>\<open>Add\<close>, \<^verbatim>\<open>Sub\<close> and
  \<^verbatim>\<open>IsPositive\<close> are the exact operations, so a decimal is read as the rational number
  it denotes. A point in time is a number of clock ticks.
\<close>

type_synonym decimal = rat
type_synonym instant = nat

definition Sub :: "decimal \<Rightarrow> decimal \<Rightarrow> decimal" where
  "Sub d d2 = d - d2"

definition Add :: "decimal \<Rightarrow> decimal \<Rightarrow> decimal" where
  "Add d d2 = d + d2"

definition Sign :: "decimal \<Rightarrow> int" where
  "Sign d = (if d < 0 then - 1 else if d = 0 then 0 else 1)"

definition IsPositive :: "decimal \<Rightarrow> bool" where
  "IsPositive d = (Sign d = 1)"

record Wallet =
  wallet_Id :: string
  wallet_Balance :: decimal

record WalletTransaction =
  tx_AuthorId :: string
  tx_SenderId :: string
  tx_Balance :: decimal
  tx_Date :: instant

record WalletTransactionDTO =
  dto_from :: string
  dto_to :: string
  dto_amount :: decimal
  dto_time :: string

record SendWalletRequestBody =
  body_ID :: string
  body_Amount :: decimal

datatype error = ErrNoRows | StoreError | RandError | IndexPanic

record Result =
  res_Wallet :: Wallet
  res_Err :: "error option"

section \<open>The store: the two tables and the statements the handlers run\<close>

text \<open>
  The table \<^verbatim>\<open>wallets\<close> is its rows in rowid order, the table
  \<^verbatim>\<open>wallet_transactions\<close> likewise; an insert appends a row. A value read
  back is the value that was written.
\<close>

record store =
  wallets :: "Wallet list"
  wallet_transactions :: "WalletTransaction list"

text \<open>\<^verbatim>\<open>select * from wallets where id = ?\<close>, first row (QueryRow).\<close>

definition select_wallet :: "store \<Rightarrow> string \<Rightarrow> Wallet option" where
  "select_wallet s i = find (\<lambda>w. wallet_Id w = i) (wallets s)"

text \<open>\<^verbatim>\<open>update wallets set balance = ? where id = ?\<close>\<close>

definition update_balance :: "decimal \<Rightarrow> string \<Rightarrow> store \<Rightarrow> store" where
  "update_balance b i s =
     s\<lparr>wallets := map (\<lambda>w. if wallet_Id w = i then w\<lparr>wallet_Balance := b\<rparr> else w) (wallets s)\<rparr>"

text \<open>\<^verbatim>\<open>insert into wallet_transactions(author_id, sender_id, balance, date) values(?,?,?,?)\<close>\<close>

definition insert_transaction :: "string \<Rightarrow> string \<Rightarrow> decimal \<Rightarrow> instant \<Rightarrow> store \<Rightarrow> store" where
  "insert_transaction a b amt t s =
     s\<lparr>wallet_transactions := wallet_transactions s @
        [\<lparr>tx_AuthorId = a, tx_SenderId = b, tx_Balance = amt, tx_Date = t\<rparr>]\<rparr>"

text \<open>
  \<^verbatim>\<open>insert into wallets(id, balance) values(?,100)\<close>: the primary key refuses an id
  that already has a row.
\<close>

definition insert_wallet :: "string \<Rightarrow> decimal \<Rightarrow> store \<Rightarrow> store option" where
  "insert_wallet i b s =
     (if select_wallet s i \<noteq> None then None
      else Some (s\<lparr>wallets := wallets s @ [\<lparr>wallet_Id = i, wallet_Balance = b\<rparr>]\<rparr>))"

text \<open>
  \<^verbatim>\<open>select * from wallet_transactions where author_id = ? or sender_id = ?\<close>
\<close>

definition select_transactions :: "store \<Rightarrow> string \<Rightarrow> WalletTransaction list" where
  "select_transactions s i =
     filter (\<lambda>r. tx_AuthorId r = i \<or> tx_SenderId r = i) (wallet_transactions s)"

section \<open>Responses\<close>

datatype body =
    Empty
  | ErrorJSON
  | WalletJSON string decimal
  | HistoryJSON "WalletTransactionDTO list"

text \<open>
  A handler answers with a status and a body, or does not return normally
  (\<^verbatim>\<open>panic\<close>, \<^verbatim>\<open>log.Fatal\<close>).
\<close>

datatype response = Respond nat body | Crash

abbreviation StatusOK :: nat where "StatusOK \<equiv> 200"
abbreviation StatusCreated :: nat where "StatusCreated \<equiv> 201"
abbreviation StatusBadRequest :: nat where "StatusBadRequest \<equiv> 400"
abbreviation StatusNotFound :: nat where "StatusNotFound \<equiv> 404"
abbreviation StatusInternalServerError :: nat where "StatusInternalServerError \<equiv> 500"

text \<open>What became of the transaction a handler opened.\<close>

datatype tx_state = NoTx | TxOpen | TxRolledBack | TxCommitted | TxCommitFailed

record outcome =
  out_resp :: response
  out_db :: store
  out_tx :: tx_state

section \<open>Reading one wallet row\<close>

definition zero_Wallet :: Wallet where
  "zero_Wallet = \<lparr>wallet_Id = [], wallet_Balance = 0\<rparr>"

text \<open>
  \<^verbatim>\<open>QueryRow("select * from wallets where id = ?", id).Scan(&wallet.Id, &wallet.Balance)\<close>
  on a zero-valued \<^verbatim>\<open>wallet\<close> (lines 123, 274 and 315): the wallet afterwards and
  the error. \<open>io_err\<close> says that the driver fails the query; otherwise the only error
  is \<^verbatim>\<open>sql.ErrNoRows\<close>.
\<close>

definition scan_wallet :: "bool \<Rightarrow> store \<Rightarrow> string \<Rightarrow> Wallet \<times> error option" where
  "scan_wallet io_err db i =
     (if io_err then (zero_Wallet, Some StoreError)
      else case select_wallet db i of
             None \<Rightarrow> (zero_Wallet, Some ErrNoRows)
           | Some w \<Rightarrow> (w, None))"

text \<open>
  loadByIdAsync (lines 121-128): the \<^verbatim>\<open>Result\<close> that the goroutine sends on its
  channel.
\<close>

definition loadById :: "bool \<Rightarrow> store \<Rightarrow> string \<Rightarrow> Result" where
  "loadById io_err tx i =
     (case scan_wallet io_err tx i of (wallet, err) \<Rightarrow> \<lparr>res_Wallet = wallet, res_Err = err\<rparr>)"

section \<open>POST :walletid/send (lines 180-268)\<close>

text \<open>Which store calls of one request fail.\<close>

record send_faults =
  begin_err :: bool
  from_err :: bool
  to_err :: bool
  exec_err :: bool
  commit_err :: bool

definition no_send_faults :: send_faults where
  "no_send_faults =
     \<lparr>begin_err = False, from_err = False, to_err = False, exec_err = False, commit_err = False\<rparr>"

text \<open>Lines 239-244: the two new balances and the test that lets the transfer through.\<close>

definition validate :: "decimal \<Rightarrow> decimal \<Rightarrow> decimal \<Rightarrow> (decimal \<times> decimal) option" where
  "validate sourceBalance destinationBalance amount =
     (let fromAmount = Sub sourceBalance amount;
          toAmount = Add destinationBalance amount
      in if \<not> IsPositive fromAmount \<or> \<not> IsPositive toAmount then None
         else Some (fromAmount, toAmount))"

text \<open>Lines 249-253: the three statements, in the order they are written.\<close>

definition exec_transfer ::
  "store \<Rightarrow> decimal \<Rightarrow> string \<Rightarrow> decimal \<Rightarrow> string \<Rightarrow> decimal \<Rightarrow> instant \<Rightarrow> store" where
  "exec_transfer tx fromAmount fromId toAmount toId amount now =
     insert_transaction fromId toId amount now
       (update_balance toAmount toId (update_balance fromAmount fromId tx))"

text \<open>
  The handler, with the two fetches read in the order the handler receives them. The
  request body is \<open>None\<close> when \<^verbatim>\<open>ShouldBindJSON\<close> fails. The transaction works on
  a copy of the store that replaces the store at commit.
\<close>

definition send ::
  "send_faults \<Rightarrow> instant \<Rightarrow> store \<Rightarrow> string \<Rightarrow> SendWalletRequestBody option \<Rightarrow> outcome" where
  "send f now db walletid req =
     (case req of
        None \<Rightarrow> \<lparr>out_resp = Respond StatusBadRequest ErrorJSON, out_db = db, out_tx = NoTx\<rparr>
      | Some requestBody \<Rightarrow>
          let fromId = walletid;
              toId = body_ID requestBody;
              amount = body_Amount requestBody
          in if begin_err f then \<lparr>out_resp = Crash, out_db = db, out_tx = NoTx\<rparr>
             else
               let tx = db;
                   walletResFrom = loadById (from_err f) tx fromId;
                   walletResTo = loadById (to_err f) tx toId
               in if res_Err walletResFrom \<noteq> None then
                    \<lparr>out_resp = Respond StatusNotFound Empty, out_db = db, out_tx = TxRolledBack\<rparr>
                  else if res_Err walletResTo \<noteq> None then
                    \<lparr>out_resp = Respond StatusBadRequest Empty, out_db = db, out_tx = TxRolledBack\<rparr>
                  else
                    (case validate (wallet_Balance (res_Wallet walletResFrom))
                            (wallet_Balance (res_Wallet walletResTo)) amount of
                       None \<Rightarrow>
                         \<lparr>out_resp = Respond StatusBadRequest Empty, out_db = db, out_tx = TxOpen\<rparr>
                     | Some (fromAmount, toAmount) \<Rightarrow>
                         if exec_err f then
                           \<lparr>out_resp = Respond StatusInternalServerError Empty, out_db = db,
                             out_tx = TxRolledBack\<rparr>
                         else
                           let tx' = exec_transfer tx fromAmount fromId toAmount toId amount now
                           in if commit_err f then
                                \<lparr>out_resp = Respond StatusInternalServerError Empty, out_db = db,
                                  out_tx = TxCommitFailed\<rparr>
                              else
                                \<lparr>out_resp = Respond StatusOK Empty, out_db = tx',
                                  out_tx = TxCommitted\<rparr>))"

section \<open>The two fetches as goroutines joined over channels (lines 215-237)\<close>

text \<open>
  One loader runs its query and then sends the result on its channel. The handler
  receives from \<^verbatim>\<open>fromCh\<close>, returns on an error, then receives from \<^verbatim>\<open>toCh\<close>.
  A channel made with \<^verbatim>\<open>make(chan Result)\<close> has capacity 0; the capacity is a
  parameter \<open>cap\<close> of the model, and the handler's channels are the model at
  \<open>cap = 0\<close>.
\<close>

datatype loader_pc = LQuery | LSend Result | LDone

datatype handler_pc = HRecvFrom | HRecvTo Result | HReturned nat | HValidate Result Result

record conc =
  handler :: handler_pc
  fromLoader :: loader_pc
  toLoader :: loader_pc
  fromCh :: "Result list"
  toCh :: "Result list"

definition conc_init :: conc where
  "conc_init =
     \<lparr>handler = HRecvFrom, fromLoader = LQuery, toLoader = LQuery, fromCh = [], toCh = []\<rparr>"

text \<open>Lines 222-228: what the handler does with the source result.\<close>

definition after_from :: "Result \<Rightarrow> handler_pc" where
  "after_from r = (if res_Err r \<noteq> None then HReturned StatusNotFound else HRecvTo r)"

text \<open>Lines 231-237: what the handler does with the destination result.\<close>

definition after_to :: "Result \<Rightarrow> Result \<Rightarrow> handler_pc" where
  "after_to a r = (if res_Err r \<noteq> None then HReturned StatusBadRequest else HValidate a r)"

text \<open>
  The moves of the source loader: the query; a send into a free buffer slot; on a channel
  without buffer, a send straight to the handler when the handler waits on that channel.
\<close>

definition from_moves :: "nat \<Rightarrow> Result \<Rightarrow> conc \<Rightarrow> conc list" where
  "from_moves cap rf s =
     (case fromLoader s of
        LQuery \<Rightarrow> [s\<lparr>fromLoader := LSend rf\<rparr>]
      | LSend r \<Rightarrow>
          if length (fromCh s) < cap then [s\<lparr>fromLoader := LDone, fromCh := fromCh s @ [r]\<rparr>]
          else if cap = 0 \<and> handler s = HRecvFrom
          then [s\<lparr>handler := after_from r, fromLoader := LDone\<rparr>]
          else []
      | LDone \<Rightarrow> [])"

definition to_moves :: "nat \<Rightarrow> Result \<Rightarrow> conc \<Rightarrow> conc list" where
  "to_moves cap rt s =
     (case toLoader s of
        LQuery \<Rightarrow> [s\<lparr>toLoader := LSend rt\<rparr>]
      | LSend r \<Rightarrow>
          if length (toCh s) < cap then [s\<lparr>toLoader := LDone, toCh := toCh s @ [r]\<rparr>]
          else if cap = 0
          then (case handler s of
                  HRecvTo a \<Rightarrow> [s\<lparr>handler := after_to a r, toLoader := LDone\<rparr>]
                | _ \<Rightarrow> [])
          else []
      | LDone \<Rightarrow> [])"

text \<open>The moves of the handler: a receive from a buffer that holds a result.\<close>

definition handler_moves :: "conc \<Rightarrow> conc list" where
  "handler_moves s =
     (case handler s of
        HRecvFrom \<Rightarrow>
          (case fromCh s of [] \<Rightarrow> [] | r # rest \<Rightarrow> [s\<lparr>handler := after_from r, fromCh := rest\<rparr>])
      | HRecvTo a \<Rightarrow>
          (case toCh s of [] \<Rightarrow> [] | r # rest \<Rightarrow> [s\<lparr>handler := after_to a r, toCh := rest\<rparr>])
      | _ \<Rightarrow> [])"

definition succs :: "nat \<Rightarrow> Result \<Rightarrow> Result \<Rightarrow> conc \<Rightarrow> conc list" where
  "succs cap rf rt s = from_moves cap rf s @ to_moves cap rt s @ handler_moves s"

definition step :: "nat \<Rightarrow> Result \<Rightarrow> Result \<Rightarrow> conc \<Rightarrow> conc \<Rightarrow> bool" where
  "step cap rf rt s s' = (s' \<in> set (succs cap rf rt s))"

text \<open>What holds of every state the three tasks can reach, on any schedule.\<close>

definition conc_inv :: "Result \<Rightarrow> Result \<Rightarrow> conc \<Rightarrow> bool" where
  "conc_inv rf rt s =
     ((case fromLoader s of LSend r \<Rightarrow> r = rf | _ \<Rightarrow> True)
      \<and> (case toLoader s of LSend r \<Rightarrow> r = rt | _ \<Rightarrow> True)
      \<and> set (fromCh s) \<subseteq> {rf} \<and> set (toCh s) \<subseteq> {rt}
      \<and> (case handler s of
            HRecvFrom \<Rightarrow> True
          | HRecvTo a \<Rightarrow> a = rf \<and> res_Err rf = None
          | HReturned st \<Rightarrow>
              (st = StatusNotFound \<and> res_Err rf \<noteq> None)
              \<or> (st = StatusBadRequest \<and> res_Err rf = None \<and> res_Err rt \<noteq> None)
          | HValidate a b \<Rightarrow> a = rf \<and> b = rt \<and> res_Err rf = None \<and> res_Err rt = None))"

text \<open>
  The handler is past the join when it has returned or has both results in hand; what it
  has then is fixed by the two results.
\<close>

definition join_done :: "conc \<Rightarrow> bool" where
  "join_done s = (case handler s of HRecvFrom \<Rightarrow> False | HRecvTo a \<Rightarrow> False | _ \<Rightarrow> True)"

definition join_result :: "Result \<Rightarrow> Result \<Rightarrow> handler_pc" where
  "join_result rf rt =
     (if res_Err rf \<noteq> None then HReturned StatusNotFound
      else if res_Err rt \<noteq> None then HReturned StatusBadRequest
      else HValidate rf rt)"

text \<open>How many moves a task has left at most.\<close>

fun loader_size :: "loader_pc \<Rightarrow> nat" where
  "loader_size LQuery = 2"
| "loader_size (LSend r) = 1"
| "loader_size LDone = 0"

fun handler_size :: "handler_pc \<Rightarrow> nat" where
  "handler_size HRecvFrom = 2"
| "handler_size (HRecvTo a) = 1"
| "handler_size (HReturned st) = 0"
| "handler_size (HValidate a b) = 0"

definition conc_size :: "conc \<Rightarrow> nat" where
  "conc_size s = loader_size (fromLoader s) + loader_size (toLoader s) + handler_size (handler s)"

text \<open>
  What holds of every reachable state when the channels have no buffer: the buffers are
  empty, and a loader whose result the handler still waits for has not finished.
\<close>

definition unbuffered_inv :: "conc \<Rightarrow> bool" where
  "unbuffered_inv s =
     (fromCh s = [] \<and> toCh s = []
      \<and> (case handler s of
            HRecvFrom \<Rightarrow> fromLoader s \<noteq> LDone \<and> toLoader s \<noteq> LDone
          | HRecvTo a \<Rightarrow> toLoader s \<noteq> LDone
          | _ \<Rightarrow> True))"

section \<open>GET :walletid/history (lines 271-309)\<close>

record history_faults =
  wallet_err :: bool
  query_err :: bool
  scan_err :: "WalletTransaction \<Rightarrow> bool"


text \<open>
  Lines 292-306: the loop over the rows of the answer. \<open>fmt\<close> is
  \<^verbatim>\<open>Time.Format(time.RFC3339)\<close>.
\<close>

fun scan_rows ::
  "(WalletTransaction \<Rightarrow> bool) \<Rightarrow> (instant \<Rightarrow> string) \<Rightarrow> WalletTransaction list
     \<Rightarrow> WalletTransactionDTO list \<Rightarrow> WalletTransactionDTO list option" where
  "scan_rows bad fmt [] rows = Some rows"
| "scan_rows bad fmt (row # response) rows =
     (if bad row then None
      else scan_rows bad fmt response
             (rows @ [\<lparr>dto_from = tx_AuthorId row, dto_to = tx_SenderId row,
                       dto_amount = tx_Balance row, dto_time = fmt (tx_Date row)\<rparr>]))"

definition history ::
  "history_faults \<Rightarrow> (instant \<Rightarrow> string) \<Rightarrow> store \<Rightarrow> string \<Rightarrow> outcome" where
  "history f fmt db userInputId =
     (case scan_wallet (wallet_err f) db userInputId of
        (wallet, err) \<Rightarrow>
          if err \<noteq> None then
            \<lparr>out_resp = Respond StatusNotFound Empty, out_db = db, out_tx = NoTx\<rparr>
          else if query_err f then
            \<lparr>out_resp = Respond StatusNotFound Empty, out_db = db, out_tx = NoTx\<rparr>
          else
            (case scan_rows (scan_err f) fmt (select_transactions db userInputId) [] of
               None \<Rightarrow> \<lparr>out_resp = Respond StatusNotFound Empty, out_db = db, out_tx = NoTx\<rparr>
             | Some rows \<Rightarrow>
                 \<lparr>out_resp = Respond StatusOK (HistoryJSON rows), out_db = db, out_tx = NoTx\<rparr>))"


section \<open>GET :walletid (lines 312-325)\<close>

definition get_wallet :: "bool \<Rightarrow> store \<Rightarrow> string \<Rightarrow> outcome" where
  "get_wallet io_err db userInputId =
     (case scan_wallet io_err db userInputId of
        (wallet, err) \<Rightarrow>
          if err \<noteq> None then
            \<lparr>out_resp = Respond StatusNotFound Empty, out_db = db, out_tx = NoTx\<rparr>
          else
            \<lparr>out_resp = Respond StatusOK (WalletJSON (wallet_Id wallet) (wallet_Balance wallet)),
             out_db = db, out_tx = NoTx\<rparr>)"

section \<open>GenerateRandomString (lines 92-104) and POST wallet (lines 154-177)\<close>

definition letters :: string where
  "letters = ''0123456789ABCDEFGHIJKLMNOPQRSTUVWXYZabcdefghijklmnopqrstuvwxyz-''"

text \<open>
  The random source is the list of answers that the calls of \<^verbatim>\<open>rand.Int\<close> get, one
  per call: \<open>None\<close> for an error, \<open>Some num\<close> for a number. A source that has run out
  answers with an error. Indexing \<^verbatim>\<open>letters\<close> out of range panics.
\<close>

fun GenerateRandomString_loop :: "nat \<Rightarrow> nat option list \<Rightarrow> string \<Rightarrow> error + string" where
  "GenerateRandomString_loop 0 rnd ret = Inr ret"
| "GenerateRandomString_loop (Suc k) [] ret = Inl RandError"
| "GenerateRandomString_loop (Suc k) (None # rnd) ret = Inl RandError"
| "GenerateRandomString_loop (Suc k) (Some num # rnd) ret =
     (if num < length letters then GenerateRandomString_loop k rnd (ret @ [letters ! num])
      else Inl IndexPanic)"

definition GenerateRandomString :: "nat \<Rightarrow> nat option list \<Rightarrow> error + string" where
  "GenerateRandomString n rnd = GenerateRandomString_loop n rnd []"

definition create_wallet :: "nat option list \<Rightarrow> store \<Rightarrow> outcome" where
  "create_wallet rnd db =
     (case GenerateRandomString 6 rnd of
        Inl e \<Rightarrow> \<lparr>out_resp = Crash, out_db = db, out_tx = NoTx\<rparr>
      | Inr i \<Rightarrow>
          (case insert_wallet i 100 db of
             None \<Rightarrow> \<lparr>out_resp = Crash, out_db = db, out_tx = NoTx\<rparr>
           | Some db' \<Rightarrow>
               \<lparr>out_resp = Respond StatusCreated (WalletJSON i 100), out_db = db', out_tx = NoTx\<rparr>))"

section \<open>Stores used in the worked examples\<close>

definition two_wallets :: store where
  "two_wallets =
     \<lparr>wallets = [\<lparr>wallet_Id = ''X'', wallet_Balance = 100\<rparr>,
                 \<lparr>wallet_Id = ''Y'', wallet_Balance = 100\<rparr>],
      wallet_transactions = []\<rparr>"

definition after_transfer :: store where
  "after_transfer =
     \<lparr>wallets = [\<lparr>wallet_Id = ''X'', wallet_Balance = 70\<rparr>,
                 \<lparr>wallet_Id = ''Y'', wallet_Balance = 130\<rparr>,
                 \<lparr>wallet_Id = ''Z'', wallet_Balance = 100\<rparr>],
      wallet_transactions =
        [\<lparr>tx_AuthorId = ''X'', tx_SenderId = ''Y'', tx_Balance = 30, tx_Date = 7\<rparr>]\<rparr>"

text \<open>
  The state after this schedule: both loaders have run their queries, the source loader
  has handed an error to the handler, the handler has returned 404, and the destination
  loader holds its result \<open>rt\<close>, about to send it.
\<close>

definition abandoned :: "Result \<Rightarrow> conc" where
  "abandoned rt =
     \<lparr>handler = HReturned StatusNotFound, fromLoader = LDone, toLoader = LSend rt,
      fromCh = [], toCh = []\<rparr>"

section \<open>The statements on the store\<close>








lemma loadById_found:
  "select_wallet tx i = Some w \<Longrightarrow> loadById False tx i = \<lparr>res_Wallet = w, res_Err = None\<rparr>"
  by (simp add: loadById_def scan_wallet_def)

lemma loadById_missing:
  "select_wallet tx i = None \<Longrightarrow> res_Err (loadById e tx i) \<noteq> None"
  by (simp add: loadById_def scan_wallet_def)

lemma select_two_wallets_X:
  "select_wallet two_wallets ''X'' = Some \<lparr>wallet_Id = ''X'', wallet_Balance = 100\<rparr>"
  by (simp add: select_wallet_def two_wallets_def)

lemma select_two_wallets_Y:
  "select_wallet two_wallets ''Y'' = Some \<lparr>wallet_Id = ''Y'', wallet_Balance = 100\<rparr>"
  by (simp add: select_wallet_def two_wallets_def)

lemma select_two_wallets_Q: "select_wallet two_wallets ''Q'' = None"
  by (simp add: select_wallet_def two_wallets_def)

section \<open>The validator\<close>

lemma IsPositive_iff: "IsPositive d \<longleftrightarrow> 0 < d"
  by (simp add: IsPositive_def Sign_def)


lemma validate_None_iff: "validate B D A = None \<longleftrightarrow> B - A \<le> 0 \<or> D + A \<le> 0"
  by (auto simp: validate_def Let_def IsPositive_iff Sub_def Add_def)

text \<open>
  C2. The validator is a function of the source balance, the destination balance and the
  amount alone. It approves exactly when both the source balance less the amount and the
  destination balance plus the amount are strictly greater than zero, and then hands on
  these two values; a transfer that would leave either balance at exactly zero is
  rejected.
\<close>

theorem validate_approves_iff_strictly_positive:
  "(validate sourceBalance destinationBalance amount \<noteq> None
      \<longleftrightarrow> 0 < sourceBalance - amount \<and> 0 < destinationBalance + amount)
   \<and> (validate sourceBalance destinationBalance amount \<noteq> None
      \<longrightarrow> validate sourceBalance destinationBalance amount
           = Some (sourceBalance - amount, destinationBalance + amount))
   \<and> (sourceBalance - amount = 0 \<or> destinationBalance + amount = 0
      \<longrightarrow> validate sourceBalance destinationBalance amount = None)"
  by (auto simp: validate_def Let_def IsPositive_iff Sub_def Add_def)

text \<open>
  Balances 100 and 100: the amounts 30 and -10 pass, the amounts 100 and -100 leave one
  balance at zero and are rejected.
\<close>

theorem validate_approves_iff_strictly_positive_witness:
  "validate 100 100 30 = Some (70, 130) \<and> validate 100 100 100 = None
   \<and> validate 100 100 (- 100) = None \<and> validate 100 100 (- 10) = Some (110, 90)"
  using validate_approves_iff_strictly_positive [of 100 100 30]
    validate_approves_iff_strictly_positive [of 100 100 100]
    validate_approves_iff_strictly_positive [of 100 100 "- 100"]
    validate_approves_iff_strictly_positive [of 100 100 "- 10"]
  by simp

section \<open>The transfer\<close>


lemma send_rejected:
  assumes "select_wallet db fromId = Some src" and "select_wallet db toId = Some dst"
    and "wallet_Balance src - A \<le> 0 \<or> wallet_Balance dst + A \<le> 0"
    and "\<not> begin_err f" and "\<not> from_err f" and "\<not> to_err f"
  shows "send f now db fromId (Some \<lparr>body_ID = toId, body_Amount = A\<rparr>)
         = \<lparr>out_resp = Respond StatusBadRequest Empty, out_db = db, out_tx = TxOpen\<rparr>"
proof -
  have v: "validate (wallet_Balance src) (wallet_Balance dst) A = None"
    using assms(3) by (simp add: validate_None_iff)
  show ?thesis
    using assms by (simp add: send_def Let_def loadById_found v)
qed





text \<open>
  C3. Take a transfer between two existing wallets with \<open>B - A \<le> 0\<close> or \<open>D + A \<le> 0\<close>,
  the transaction begun and both fetches answered. The handler reports the rejection
  (400) and the store equals its pre-transfer state: no balance changes and no record
  is appended. The handler does not roll the transaction back: it returns with the
  transaction still open, where the paths for a failed fetch and a failed statement
  call \<^verbatim>\<open>tx.Rollback()\<close>.
\<close>

theorem rejected_transfer_keeps_store_but_leaves_transaction_open:
  assumes "select_wallet db fromId = Some src" and "select_wallet db toId = Some dst"
    and "wallet_Balance src - A \<le> 0 \<or> wallet_Balance dst + A \<le> 0"
    and "\<not> begin_err f" and "\<not> from_err f" and "\<not> to_err f"
  shows "send f now db fromId (Some \<lparr>body_ID = toId, body_Amount = A\<rparr>)
         = \<lparr>out_resp = Respond StatusBadRequest Empty, out_db = db, out_tx = TxOpen\<rparr>"
  using assms by (rule send_rejected)

text \<open>The transfer of 1000 from X to Y, both at 100.\<close>

theorem rejected_transfer_keeps_store_but_leaves_transaction_open_witness:
  "send no_send_faults 7 two_wallets ''X'' (Some \<lparr>body_ID = ''Y'', body_Amount = 1000\<rparr>)
   = \<lparr>out_resp = Respond StatusBadRequest Empty, out_db = two_wallets, out_tx = TxOpen\<rparr>
   \<and> out_tx (send no_send_faults 7 two_wallets ''X''
               (Some \<lparr>body_ID = ''Y'', body_Amount = 1000\<rparr>))
     \<noteq> TxRolledBack"
  using rejected_transfer_keeps_store_but_leaves_transaction_open
          [OF select_two_wallets_X select_two_wallets_Y, of 1000 no_send_faults 7]
  by (simp add: no_send_faults_def)





section \<open>The join of the two fetches\<close>

lemma conc_inv_init: "conc_inv rf rt conc_init"
  by (simp add: conc_inv_def conc_init_def)

lemma from_moves_cases:
  assumes "s' \<in> set (from_moves cap rf s)"
  obtains
    (query) "fromLoader s = LQuery" "s' = s\<lparr>fromLoader := LSend rf\<rparr>"
  | (buffer) r where "fromLoader s = LSend r" "length (fromCh s) < cap"
      "s' = s\<lparr>fromLoader := LDone, fromCh := fromCh s @ [r]\<rparr>"
  | (handoff) r where "fromLoader s = LSend r" "cap = 0" "handler s = HRecvFrom"
      "s' = s\<lparr>handler := after_from r, fromLoader := LDone\<rparr>"
  using assms by (auto simp: from_moves_def split: loader_pc.splits if_splits)

lemma to_moves_cases:
  assumes "s' \<in> set (to_moves cap rt s)"
  obtains
    (query) "toLoader s = LQuery" "s' = s\<lparr>toLoader := LSend rt\<rparr>"
  | (buffer) r where "toLoader s = LSend r" "length (toCh s) < cap"
      "s' = s\<lparr>toLoader := LDone, toCh := toCh s @ [r]\<rparr>"
  | (handoff) r a where "toLoader s = LSend r" "cap = 0" "handler s = HRecvTo a"
      "s' = s\<lparr>handler := after_to a r, toLoader := LDone\<rparr>"
  using assms
  by (auto simp: to_moves_def split: loader_pc.splits handler_pc.splits if_splits)

lemma handler_moves_cases:
  assumes "s' \<in> set (handler_moves s)"
  obtains
    (recv_from) r rest where "handler s = HRecvFrom" "fromCh s = r # rest"
      "s' = s\<lparr>handler := after_from r, fromCh := rest\<rparr>"
  | (recv_to) a r rest where "handler s = HRecvTo a" "toCh s = r # rest"
      "s' = s\<lparr>handler := after_to a r, toCh := rest\<rparr>"
  using assms
  by (auto simp: handler_moves_def split: handler_pc.splits list.splits) metis+

lemma step_cases:
  assumes "step cap rf rt s s'"
  obtains (f) "s' \<in> set (from_moves cap rf s)"
    | (t) "s' \<in> set (to_moves cap rt s)"
    | (h) "s' \<in> set (handler_moves s)"
  using assms by (auto simp: step_def succs_def)

lemma conc_inv_step:
  assumes "conc_inv rf rt s" and "step cap rf rt s s'"
  shows "conc_inv rf rt s'"
  using assms(2)
proof (cases rule: step_cases)
  case f
  then show ?thesis
    using assms(1)
    by (cases rule: from_moves_cases)
       (auto simp: conc_inv_def after_from_def split: handler_pc.splits)
next
  case t
  then show ?thesis
    using assms(1)
    by (cases rule: to_moves_cases)
       (auto simp: conc_inv_def after_to_def split: loader_pc.splits)
next
  case h
  then show ?thesis
    using assms(1)
    by (cases rule: handler_moves_cases)
       (auto simp: conc_inv_def after_from_def after_to_def split: loader_pc.splits)
qed

lemma conc_inv_reachable:
  "(step cap rf rt)\<^sup>*\<^sup>* conc_init s \<Longrightarrow> conc_inv rf rt s"
  by (induction rule: rtranclp_induct) (auto intro: conc_inv_init conc_inv_step)


lemma validate_reached_reachable:
  assumes "(step cap rf rt)\<^sup>*\<^sup>* conc_init s" and "handler s = HValidate a b"
  shows "a = rf \<and> b = rt \<and> res_Err rf = None \<and> res_Err rt = None"
  using conc_inv_reachable [OF assms(1)] assms(2) by (simp add: conc_inv_def)

text \<open>
  The join ends on every schedule: each move uses up one of finitely many, and a state
  without a move has the handler past the join, with the outcome that reading the two
  results in order gives.
\<close>

lemma step_decreases:
  assumes "step cap rf rt s s'"
  shows "conc_size s' < conc_size s"
  using assms
proof (cases rule: step_cases)
  case f
  then show ?thesis
    by (cases rule: from_moves_cases) (auto simp: conc_size_def after_from_def)
next
  case t
  then show ?thesis
    by (cases rule: to_moves_cases) (auto simp: conc_size_def after_to_def)
next
  case h
  then show ?thesis
    by (cases rule: handler_moves_cases) (auto simp: conc_size_def after_from_def after_to_def)
qed

lemma unbuffered_inv_init: "unbuffered_inv conc_init"
  by (simp add: unbuffered_inv_def conc_init_def)

lemma unbuffered_inv_step:
  assumes "unbuffered_inv s" and "step 0 rf rt s s'"
  shows "unbuffered_inv s'"
  using assms(2)
proof (cases rule: step_cases)
  case f
  then show ?thesis
    using assms(1)
    by (cases rule: from_moves_cases)
       (auto simp: unbuffered_inv_def after_from_def split: handler_pc.splits)
next
  case t
  then show ?thesis
    using assms(1)
    by (cases rule: to_moves_cases)
       (auto simp: unbuffered_inv_def after_to_def split: handler_pc.splits)
next
  case h
  then show ?thesis
    using assms(1)
    by (cases rule: handler_moves_cases) (auto simp: unbuffered_inv_def)
qed

lemma unbuffered_inv_reachable:
  "(step 0 rf rt)\<^sup>*\<^sup>* conc_init s \<Longrightarrow> unbuffered_inv s"
  by (induction rule: rtranclp_induct) (auto intro: unbuffered_inv_init unbuffered_inv_step)

lemma handler_never_stuck_in_join:
  assumes "unbuffered_inv s" and "succs 0 rf rt s = []"
  shows "join_done s"
proof (cases "handler s")
  case HRecvFrom
  with assms show ?thesis
    by (cases "fromLoader s") (auto simp: unbuffered_inv_def succs_def from_moves_def)
next
  case (HRecvTo a)
  with assms show ?thesis
    by (cases "toLoader s") (auto simp: unbuffered_inv_def succs_def to_moves_def)
qed (simp_all add: join_done_def)

lemma join_completes_from:
  "unbuffered_inv s \<Longrightarrow> \<exists>s'. (step 0 rf rt)\<^sup>*\<^sup>* s s' \<and> join_done s'"
proof (induction "conc_size s" arbitrary: s rule: less_induct)
  case less
  show ?case
  proof (cases "succs 0 rf rt s")
    case Nil
    with less.prems have "join_done s" by (rule handler_never_stuck_in_join)
    then show ?thesis by blast
  next
    case (Cons s1 rest)
    then have st: "step 0 rf rt s s1" by (simp add: step_def)
    from less.prems st have "unbuffered_inv s1" by (rule unbuffered_inv_step)
    with less.hyps [OF step_decreases [OF st]] obtain s'
      where "(step 0 rf rt)\<^sup>*\<^sup>* s1 s'" "join_done s'" by blast
    with st show ?thesis by (blast intro: converse_rtranclp_into_rtranclp)
  qed
qed

lemma join_result_reachable:
  assumes "(step cap rf rt)\<^sup>*\<^sup>* conc_init s" and "join_done s"
  shows "handler s = join_result rf rt"
  using conc_inv_reachable [OF assms(1)] assms(2)
  by (cases "handler s") (auto simp: conc_inv_def join_done_def join_result_def)

lemma send_after_failed_join:
  assumes "\<not> begin_err f"
    and "join_result (loadById (from_err f) db fromId) (loadById (to_err f) db (body_ID b))
         = HReturned st"
  shows "send f now db fromId (Some b)
         = \<lparr>out_resp = Respond st Empty, out_db = db, out_tx = TxRolledBack\<rparr>"
  using assms by (auto simp: send_def Let_def join_result_def split: if_splits)

lemma to_loader_blocked_step:
  assumes "res_Err rf \<noteq> None" and "conc_inv rf rt s" and "toLoader s \<noteq> LDone"
    and "step 0 rf rt s s'"
  shows "toLoader s' \<noteq> LDone"
  using assms(4)
proof (cases rule: step_cases)
  case f
  then show ?thesis
    using assms(3) by (cases rule: from_moves_cases) auto
next
  case t
  then show ?thesis
    using assms(1,2) by (cases rule: to_moves_cases) (auto simp: conc_inv_def)
next
  case h
  then show ?thesis
    using assms(3) by (cases rule: handler_moves_cases) auto
qed

lemma abandoned_reachable:
  assumes "res_Err rf \<noteq> None"
  shows "(step 0 rf rt)\<^sup>*\<^sup>* conc_init (abandoned rt)"
proof -
  let ?s1 = "conc_init\<lparr>fromLoader := LSend rf\<rparr>"
  let ?s2 = "?s1\<lparr>toLoader := LSend rt\<rparr>"
  have 1: "step 0 rf rt conc_init ?s1"
    by (simp add: step_def succs_def from_moves_def conc_init_def)
  have 2: "step 0 rf rt ?s1 ?s2"
    by (simp add: step_def succs_def from_moves_def to_moves_def conc_init_def)
  have 3: "step 0 rf rt ?s2 (abandoned rt)"
    using assms
    by (simp add: step_def succs_def from_moves_def to_moves_def conc_init_def
        after_from_def abandoned_def)
  from 1 2 3 show ?thesis by (meson rtranclp.rtrancl_into_rtrancl rtranclp.rtrancl_refl)
qed

lemma abandoned_stuck: "succs 0 rf rt (abandoned rt) = []"
  by (simp add: succs_def from_moves_def to_moves_def handler_moves_def abandoned_def)

lemma buffered_slot_lets_abandoned_loader_finish:
  assumes "res_Err rf \<noteq> None"
  shows "(step 1 rf rt)\<^sup>*\<^sup>* conc_init
           \<lparr>handler = HReturned StatusNotFound, fromLoader = LDone, toLoader = LDone,
            fromCh = [], toCh = [rt]\<rparr>"
proof -
  let ?s1 = "conc_init\<lparr>fromLoader := LSend rf\<rparr>"
  let ?s2 = "?s1\<lparr>fromLoader := LDone, fromCh := [rf]\<rparr>"
  let ?s3 = "?s2\<lparr>handler := HReturned StatusNotFound, fromCh := []\<rparr>"
  let ?s4 = "?s3\<lparr>toLoader := LSend rt\<rparr>"
  let ?s5 = "?s4\<lparr>toLoader := LDone, toCh := [rt]\<rparr>"
  have 1: "step 1 rf rt conc_init ?s1"
    by (simp add: step_def succs_def from_moves_def conc_init_def)
  have 2: "step 1 rf rt ?s1 ?s2"
    by (simp add: step_def succs_def from_moves_def conc_init_def)
  have 3: "step 1 rf rt ?s2 ?s3"
    using assms
    by (simp add: step_def succs_def from_moves_def to_moves_def handler_moves_def
        conc_init_def after_from_def)
  have 4: "step 1 rf rt ?s3 ?s4"
    by (simp add: step_def succs_def from_moves_def to_moves_def conc_init_def)
  have 5: "step 1 rf rt ?s4 ?s5"
    by (simp add: step_def succs_def from_moves_def to_moves_def conc_init_def)
  have e: "?s5 = \<lparr>handler = HReturned StatusNotFound, fromLoader = LDone, toLoader = LDone,
            fromCh = [], toCh = [rt]\<rparr>"
    by (simp add: conc_init_def)
  from 1 2 3 4 5 have "(step 1 rf rt)\<^sup>*\<^sup>* conc_init ?s5"
    by (meson rtranclp.rtrancl_into_rtrancl rtranclp.rtrancl_refl)
  then show ?thesis unfolding e .
qed



text \<open>
  C5. The channels of the handler have no buffer. When the source fetch fails, the
  destination loader never finishes its send on any schedule: the handler returns
  without receiving from \<^verbatim>\<open>toCh\<close>, and a send on a channel without buffer needs
  a receiver. Every run ends with the handler returned (404) and the destination loader
  still holding its result at the send of line 124. With one buffer slot the loader
  would finish (\<open>buffered_slot_lets_abandoned_loader_finish\<close>).
\<close>

theorem abandoned_destination_fetch_never_completes:
  assumes "res_Err rf \<noteq> None" and "(step 0 rf rt)\<^sup>*\<^sup>* conc_init s"
  shows "toLoader s \<noteq> LDone
         \<and> (succs 0 rf rt s = []
            \<longrightarrow> toLoader s = LSend rt \<and> handler s = HReturned StatusNotFound)"
proof -
  have blocked: "toLoader s \<noteq> LDone"
    using assms(2)
  proof (induction rule: rtranclp_induct)
    case base
    show ?case by (simp add: conc_init_def)
  next
    case (step y z)
    from step.hyps(1) have "conc_inv rf rt y" by (rule conc_inv_reachable)
    from assms(1) this step.IH step.hyps(2) show ?case
      by (rule to_loader_blocked_step)
  qed
  have final: "toLoader s = LSend rt \<and> handler s = HReturned StatusNotFound"
    if stuck: "succs 0 rf rt s = []"
  proof -
    from assms(2) have inv: "conc_inv rf rt s" by (rule conc_inv_reachable)
    from stuck have "to_moves 0 rt s = []" by (simp add: succs_def)
    with blocked inv have 1: "toLoader s = LSend rt"
      by (cases "toLoader s") (auto simp: to_moves_def conc_inv_def)
    from assms(2) have "unbuffered_inv s" by (rule unbuffered_inv_reachable)
    then have "join_done s" using stuck by (rule handler_never_stuck_in_join)
    with assms(2) have "handler s = join_result rf rt" by (rule join_result_reachable)
    with assms(1) have 2: "handler s = HReturned StatusNotFound"
      by (simp add: join_result_def)
    from 1 2 show ?thesis by simp
  qed
  from blocked final show ?thesis by blast
qed

text \<open>
  The source wallet Q does not exist. The state \<open>abandoned\<close> is reached, the destination
  loader is still about to send, and no task can move.
\<close>

theorem abandoned_destination_fetch_never_completes_witness:
  "res_Err (loadById False two_wallets ''Q'') \<noteq> None
   \<and> (step 0 (loadById False two_wallets ''Q'') (loadById False two_wallets ''Y''))\<^sup>*\<^sup>*
       conc_init (abandoned (loadById False two_wallets ''Y''))
   \<and> toLoader (abandoned (loadById False two_wallets ''Y'')) \<noteq> LDone
   \<and> succs 0 (loadById False two_wallets ''Q'') (loadById False two_wallets ''Y'')
       (abandoned (loadById False two_wallets ''Y'')) = []"
proof -
  have e: "res_Err (loadById False two_wallets ''Q'') \<noteq> None"
    by (simp add: loadById_missing select_two_wallets_Q)
  have r: "(step 0 (loadById False two_wallets ''Q'') (loadById False two_wallets ''Y''))\<^sup>*\<^sup>*
       conc_init (abandoned (loadById False two_wallets ''Y''))"
    using e by (rule abandoned_reachable)
  show ?thesis
    using e r abandoned_destination_fetch_never_completes [OF e r] abandoned_stuck
    by simp
qed

section \<open>The history of a wallet\<close>


lemma scan_rows_bad:
  "r \<in> set rs \<Longrightarrow> bad r \<Longrightarrow> scan_rows bad fmt rs acc = None"
  by (induction rs arbitrary: acc) auto




lemma history_store_error_is_not_found:
  "wallet_err f \<or> query_err f \<or> (\<exists>r \<in> set (select_transactions db i). scan_err f r)
   \<Longrightarrow> out_resp (history f fmt db i) = Respond StatusNotFound Empty"
  by (auto simp: history_def scan_wallet_def scan_rows_bad split: option.splits)



section \<open>The balance of a wallet\<close>

text \<open>
  C9. The query of a wallet leaves the store unchanged, so the same query asked again
  right after it gives the identical answer; for an existing wallet that answer is 200
  with the stored id and balance.
\<close>

theorem get_wallet_read_only:
  "out_db (get_wallet e db i) = db
   \<and> get_wallet e (out_db (get_wallet e db i)) i = get_wallet e db i
   \<and> (\<not> e \<and> select_wallet db i = Some w
      \<longrightarrow> out_resp (get_wallet e db i)
          = Respond StatusOK (WalletJSON (wallet_Id w) (wallet_Balance w)))"
proof -
  have unchanged: "out_db (get_wallet e db i) = db"
    by (simp add: get_wallet_def split: prod.splits)
  have found: "\<not> e \<and> select_wallet db i = Some w
      \<longrightarrow> out_resp (get_wallet e db i)
          = Respond StatusOK (WalletJSON (wallet_Id w) (wallet_Balance w))"
    by (simp add: get_wallet_def scan_wallet_def)
  from unchanged found show ?thesis by simp
qed

theorem get_wallet_read_only_witness:
  "out_db (get_wallet False after_transfer ''X'') = after_transfer
   \<and> out_resp (get_wallet False (out_db (get_wallet False after_transfer ''X'')) ''X'')
     = Respond StatusOK (WalletJSON ''X'' 70)
   \<and> out_resp (get_wallet False after_transfer ''X'') = Respond StatusOK (WalletJSON ''X'' 70)"
proof -
  have x: "select_wallet after_transfer ''X'' = Some \<lparr>wallet_Id = ''X'', wallet_Balance = 70\<rparr>"
    by (simp add: select_wallet_def after_transfer_def)
  show ?thesis
    using get_wallet_read_only [of False after_transfer "''X''" "\<lparr>wallet_Id = ''X'', wallet_Balance = 70\<rparr>"] x
    by simp
qed

section \<open>Wallet ids\<close>

lemma length_letters: "length letters = 63"
  by (simp add: letters_def)

lemma distinct_letters: "distinct letters"
  by (simp add: letters_def)

lemma loop_result:
  "GenerateRandomString_loop n rnd ret = Inr s
   \<Longrightarrow> length s = length ret + n \<and> set s \<subseteq> set ret \<union> set letters"
proof (induction n rnd ret rule: GenerateRandomString_loop.induct)
  case (4 k num rnd ret)
  show ?case
  proof (cases "num < length letters")
    case True
    with "4.prems" have "GenerateRandomString_loop k rnd (ret @ [letters ! num]) = Inr s"
      by simp
    from "4.IH" [OF True this] True show ?thesis
      by (auto simp: nth_mem)
  next
    case False
    with "4.prems" show ?thesis by simp
  qed
qed simp_all

lemma loop_returns:
  "n \<le> length rnd \<Longrightarrow> \<forall>x \<in> set (take n rnd). \<exists>m < length letters. x = Some m
   \<Longrightarrow> \<exists>s. GenerateRandomString_loop n rnd ret = Inr s"
proof (induction n rnd ret rule: GenerateRandomString_loop.induct)
  case (4 k num rnd ret)
  then show ?case by auto
qed auto

lemma GenerateRandomString_result:
  "GenerateRandomString n rnd = Inr s \<Longrightarrow> length s = n \<and> set s \<subseteq> set letters"
  using loop_result [of n rnd "[]" s] by (simp add: GenerateRandomString_def)

text \<open>
  The alphabet of \<^verbatim>\<open>GenerateRandomString\<close> has 63 symbols, all different: 10 digits,
  26 uppercase letters, 26 lowercase letters and the hyphen. It does not have 64.
\<close>

theorem alphabet_has_63_symbols_not_64:
  "length letters \<noteq> 64 \<and> card (set letters) \<noteq> 64"
  using distinct_card [OF distinct_letters] by (simp add: length_letters)

text \<open>
  C10. Every wallet id that wallet creation answers with is exactly 6 characters long,
  each drawn from the fixed alphabet of 63 symbols: the digits, the uppercase and the
  lowercase Latin letters, and the hyphen. The id is what \<^verbatim>\<open>GenerateRandomString(6)\<close>
  returned, and that call does return an id when the random source answers six times
  with a number below the length of the alphabet.
\<close>

theorem wallet_id_is_six_letters_of_63:
  "length letters = 63 \<and> distinct letters
   \<and> letters = ''0123456789'' @ ''ABCDEFGHIJKLMNOPQRSTUVWXYZ'' @ ''abcdefghijklmnopqrstuvwxyz'' @ ''-''
   \<and> (out_resp (create_wallet rnd db) = Respond st (WalletJSON i bal)
      \<longrightarrow> length i = 6 \<and> set i \<subseteq> set letters \<and> st = StatusCreated \<and> bal = 100
          \<and> GenerateRandomString 6 rnd = Inr i)
   \<and> (6 \<le> length rnd \<and> (\<forall>x \<in> set (take 6 rnd). \<exists>m < length letters. x = Some m)
      \<longrightarrow> (\<exists>i. GenerateRandomString 6 rnd = Inr i))"
proof (intro conjI impI)
  show "length letters = 63" by (rule length_letters)
  show "distinct letters" by (rule distinct_letters)
  show "letters = ''0123456789'' @ ''ABCDEFGHIJKLMNOPQRSTUVWXYZ'' @ ''abcdefghijklmnopqrstuvwxyz'' @ ''-''"
    by (simp add: letters_def)
next
  assume "6 \<le> length rnd \<and> (\<forall>x \<in> set (take 6 rnd). \<exists>m < length letters. x = Some m)"
  then show "\<exists>i. GenerateRandomString 6 rnd = Inr i"
    unfolding GenerateRandomString_def by (intro loop_returns) auto
next
  assume a: "out_resp (create_wallet rnd db) = Respond st (WalletJSON i bal)"
  then have g: "GenerateRandomString 6 rnd = Inr i" and s: "st = StatusCreated" and b: "bal = 100"
    by (auto simp: create_wallet_def split: sum.splits option.splits)
  from GenerateRandomString_result [OF g] g s b
  show "length i = 6" "set i \<subseteq> set letters" "st = StatusCreated" "bal = 100"
    "GenerateRandomString 6 rnd = Inr i"
    by auto
qed

theorem wallet_id_is_six_letters_of_63_witness:
  "out_resp (create_wallet [Some 0, Some 10, Some 36, Some 62, Some 5, Some 2] two_wallets)
     = Respond StatusCreated (WalletJSON ''0Aa-52'' 100)
   \<and> length ''0Aa-52'' = 6 \<and> set ''0Aa-52'' \<subseteq> set letters"
proof -
  have g: "GenerateRandomString 6 [Some 0, Some 10, Some 36, Some 62, Some 5, Some 2] = Inr ''0Aa-52''"
    by (simp add: GenerateRandomString_def letters_def eval_nat_numeral)
  have c: "out_resp (create_wallet [Some 0, Some 10, Some 36, Some 62, Some 5, Some 2] two_wallets)
     = Respond StatusCreated (WalletJSON ''0Aa-52'' 100)"
    by (simp add: create_wallet_def g insert_wallet_def select_wallet_def two_wallets_def)
  show ?thesis
    using c wallet_id_is_six_letters_of_63
      [of "[Some 0, Some 10, Some 36, Some 62, Some 5, Some 2]" two_wallets
          StatusCreated "''0Aa-52''" 100]
    by simp
qed

end
